theory Spec2Isabelle
  imports Main "HOL-Library.Word"
begin

unbundle bit_operations_syntax

section \<open>The oscillator state\<close>

text \<open>
  The sketch \<^verbatim>\<open>core1ae-Scheveningen.ino\<close> keeps all of its state in global variables.
  They become the fields of one record, with the widths of their C types:
  \<^verbatim>\<open>uint8_t\<close>, \<^verbatim>\<open>uint16_t\<close> and \<^verbatim>\<open>uint32_t\<close> are words, whose arithmetic wraps.
  The field \<open>pwm\<close> is the duty register that \<^verbatim>\<open>wsWriteToPWM\<close> writes. The global
  \<^verbatim>\<open>output\<close> is the field \<open>output_u8\<close>, as \<open>output\<close> is a reserved word here.
\<close>

type_synonym u8 = "8 word"
type_synonym u16 = "16 word"
type_synonym u32 = "32 word"

record osc =
  master_polarity :: bool
  slave_polarity :: bool
  output_u8 :: u8
  master_phase :: u16
  phase_inc :: u16
  slave_offset_current :: u16
  slave_offset_measured :: u16
  wrap_factor :: u16
  neg_wrap_factor :: u16
  slave_phase :: u16
  master_value :: u16
  slave_value :: u16
  accumulator :: u32
  pwm :: u8

text \<open>The initial values of the globals.\<close>

definition init_osc :: osc where
  "init_osc = \<lparr> master_polarity = False, slave_polarity = False, output_u8 = 0,
     master_phase = 0, phase_inc = 1, slave_offset_current = 1,
     slave_offset_measured = 1, wrap_factor = 64, neg_wrap_factor = 64,
     slave_phase = 0, master_value = 0, slave_value = 0, accumulator = 0, pwm = 0 \<rparr>"

section \<open>The control-rate sampler: \<^verbatim>\<open>loop\<close>\<close>

text \<open>
  \<^verbatim>\<open>analogRead\<close> returns a C \<^verbatim>\<open>int\<close>, which has 16 bits on the AVR this sketch is built
  for. The readings are integers, and every \<^verbatim>\<open>int\<close> operation of the source is followed
  by the wrap into 16 signed bits. \<^verbatim>\<open>min\<close> and \<^verbatim>\<open>max\<close> are the Arduino macros
  \<^verbatim>\<open>((a)<(b)?(a):(b))\<close> and \<^verbatim>\<open>((a)>(b)?(a):(b))\<close>. A macro repeats its argument: the
  branch that it selects is evaluated again, after the comparison. Each call of
  \<^verbatim>\<open>analogRead\<close> is a conversion of its own, so the value that lines 94 and 105 store
  comes from a later reading than the value that they compare.

  The readings of one input during one pass are a sequence, numbered from 0 in the order
  of the calls. The readings of different inputs do not depend on each other, so the
  order in which the two operands of the sum in line 94 are evaluated plays no part.
\<close>

definition s16 :: "int \<Rightarrow> int" where
  "s16 x = signed_take_bit 15 x"

definition max_macro :: "'a::linorder \<Rightarrow> 'a \<Rightarrow> 'a" where
  "max_macro a b = (if a > b then a else b)"

text \<open>
  Line 94, inner macro: \<^verbatim>\<open>max(0,analogRead(PITCH_KNOB)-600)\<close>, which is
  \<^verbatim>\<open>((0)>(analogRead(PITCH_KNOB)-600)?(0):(analogRead(PITCH_KNOB)-600))\<close>. It starts at
  reading \<open>i\<close> of the knob and returns its value with the number of the next reading.
\<close>

definition knob_excess :: "(nat \<Rightarrow> int) \<Rightarrow> nat \<Rightarrow> int \<times> nat" where
  "knob_excess pitch_knob i =
     (if 0 > s16 (pitch_knob i - 600) then (0, i + 1)
      else (s16 (pitch_knob (i + 1) - 600), i + 2))"

text \<open>
  Line 94, the second argument of \<^verbatim>\<open>min\<close>: \<^verbatim>\<open>analogRead(PITCH_CV) + max(...)\<close>, at
  reading \<open>c\<close> of the CV and reading \<open>i\<close> of the knob.
\<close>

definition pitch_sum :: "(nat \<Rightarrow> int) \<Rightarrow> (nat \<Rightarrow> int) \<Rightarrow> nat \<Rightarrow> nat \<Rightarrow> int \<times> nat" where
  "pitch_sum pitch_cv pitch_knob c i =
     (let (m, j) = knob_excess pitch_knob i in (s16 (pitch_cv c + m), j))"

text \<open>
  Line 94: the effective pitch reading \<^verbatim>\<open>pwmv\<close>, which is \<^verbatim>\<open>((1023)<(b)?(1023):(b))\<close> for
  the sum \<^verbatim>\<open>b\<close>, stored in a \<^verbatim>\<open>uint16_t\<close>. The sum is evaluated once for the comparison
  and, unless 1023 is less, once more for the value.
\<close>

definition pwmv :: "(nat \<Rightarrow> int) \<Rightarrow> (nat \<Rightarrow> int) \<Rightarrow> u16" where
  "pwmv pitch_cv pitch_knob =
     (let (b1, i) = pitch_sum pitch_cv pitch_knob 0 0
      in if 1023 < b1 then word_of_int 1023
         else (let (b2, j) = pitch_sum pitch_cv pitch_knob 1 i in word_of_int b2))"

text \<open>
  Line 105: \<^verbatim>\<open>wrap_factor\<close>, which is \<^verbatim>\<open>((a)<(511)?(a):(511))\<close> for
  \<^verbatim>\<open>a = 64 + ( analogRead(WRAP_KNOB) >> 1 )\<close>, computed on \<^verbatim>\<open>int\<close> and stored in a
  \<^verbatim>\<open>uint16_t\<close>. Reading 0 of the fold knob is compared and reading 1 is stored.
\<close>

definition wrap_of_knob :: "(nat \<Rightarrow> int) \<Rightarrow> u16" where
  "wrap_of_knob wrap_knob =
     (if s16 (64 + s16 (drop_bit 1 (wrap_knob 0))) < 511
      then word_of_int (s16 (64 + s16 (drop_bit 1 (wrap_knob 1))))
      else word_of_int 511)"

text \<open>
  Line 106: \<^verbatim>\<open>neg_wrap_factor\<close>, computed on \<^verbatim>\<open>uint16_t\<close>. The argument that the macro
  repeats is the global \<^verbatim>\<open>wrap_factor\<close>, which has one value.
\<close>

definition neg_wrap_of :: "u16 \<Rightarrow> u16" where
  "neg_wrap_of w = max_macro (drop_bit 1 w) 64"

text \<open>
  \<^verbatim>\<open>loop\<close>. The octave table behind \<^verbatim>\<open>wsFetchOctaveLookup\<close> lives in the platform header,
  so it is a parameter, as are the readings of this pass: a sequence for the pitch CV,
  the pitch knob and the fold knob, and the one reading of the slave knob.
\<close>

definition loop ::
  "(u16 \<Rightarrow> u16) \<Rightarrow> (nat \<Rightarrow> int) \<Rightarrow> (nat \<Rightarrow> int) \<Rightarrow> int \<Rightarrow> (nat \<Rightarrow> int) \<Rightarrow> osc \<Rightarrow> osc" where
  "loop wsFetchOctaveLookup pitch_cv pitch_knob slave_knob wrap_knob st =
     (let st = st\<lparr>phase_inc := wsFetchOctaveLookup (pwmv pitch_cv pitch_knob)\<rparr>;
          st = st\<lparr>slave_offset_measured := word_of_int slave_knob\<rparr>;
          st = st\<lparr>wrap_factor := wrap_of_knob wrap_knob\<rparr>;
          st = st\<lparr>neg_wrap_factor := neg_wrap_of (wrap_factor st)\<rparr>
      in st)"

section \<open>The audio-rate engine: \<^verbatim>\<open>wsAudioLoop\<close>\<close>

text \<open>
  The body of \<^verbatim>\<open>wsAudioLoop\<close> is cut at its comment lines into stages, each a state
  transformer that follows the source statement by statement.
\<close>

text \<open>Lines 114 to 117: write the previous sample, advance the master phase.\<close>

definition write_and_advance :: "osc \<Rightarrow> osc" where
  "write_and_advance st =
     (let st = st\<lparr>pwm := output_u8 st\<rparr>;
          st = st\<lparr>master_phase := master_phase st + phase_inc st\<rparr>
      in st)"

text \<open>Lines 120 and 121: smoothing of the slave offset.\<close>

definition smooth_offset :: "osc \<Rightarrow> osc" where
  "smooth_offset st =
     (if slave_offset_current st < slave_offset_measured st
        then st\<lparr>slave_offset_current := slave_offset_current st + 1\<rparr>
      else if slave_offset_current st > slave_offset_measured st
        then st\<lparr>slave_offset_current := slave_offset_current st - 1\<rparr>
      else st)"

text \<open>Lines 125 to 131: the master phase turned into a pseudo-sine.\<close>

definition master_sine :: "osc \<Rightarrow> osc" where
  "master_sine st =
     (let st = st\<lparr>master_value := master_phase st\<rparr>;
          st = st\<lparr>master_value := push_bit 1 (master_value st)\<rparr>;
          st = st\<lparr>master_value := drop_bit 8 (master_value st)\<rparr>;
          st = st\<lparr>master_value := master_value st * (NOT (master_value st) AND 255)\<rparr>;
          st = st\<lparr>master_value := push_bit 2 (master_value st)\<rparr>;
          st = st\<lparr>master_value := drop_bit 8 (master_value st)\<rparr>;
          st = st\<lparr>master_polarity := (master_phase st AND 0x8000 \<noteq> 0)\<rparr>
      in st)"

text \<open>Lines 139 to 145: the slave phase, computed in the 32-bit accumulator.\<close>

definition slave_phase_calc :: "osc \<Rightarrow> osc" where
  "slave_phase_calc st =
     (let st = st\<lparr>accumulator := ucast (master_phase st)\<rparr>;
          st = st\<lparr>accumulator := accumulator st * ucast (slave_offset_current st)\<rparr>;
          st = st\<lparr>accumulator := drop_bit 8 (accumulator st)\<rparr>;
          st = st\<lparr>accumulator := accumulator st + ucast (master_phase st)\<rparr>;
          st = st\<lparr>accumulator := accumulator st AND 65535\<rparr>;
          st = st\<lparr>slave_phase := ucast (accumulator st)\<rparr>
      in st)"

text \<open>Lines 148 to 154: the slave phase turned into a pseudo-sine.\<close>

definition slave_sine :: "osc \<Rightarrow> osc" where
  "slave_sine st =
     (let st = st\<lparr>slave_value := slave_phase st\<rparr>;
          st = st\<lparr>slave_value := push_bit 1 (slave_value st)\<rparr>;
          st = st\<lparr>slave_value := drop_bit 8 (slave_value st)\<rparr>;
          st = st\<lparr>slave_value := slave_value st * (NOT (slave_value st) AND 255)\<rparr>;
          st = st\<lparr>slave_value := push_bit 2 (slave_value st)\<rparr>;
          st = st\<lparr>slave_value := drop_bit 8 (slave_value st)\<rparr>;
          st = st\<lparr>slave_polarity := (slave_phase st AND 0x8000 \<noteq> 0)\<rparr>
      in st)"

text \<open>Lines 158 to 162: the ring modulator, and the halving of its result.\<close>

definition ring_mod :: "osc \<Rightarrow> osc" where
  "ring_mod st =
     (let st = st\<lparr>master_value := master_value st * slave_value st\<rparr>;
          st = st\<lparr>master_value := drop_bit 8 (master_value st)\<rparr>;
          st = st\<lparr>master_polarity := (master_polarity st \<noteq> slave_polarity st)\<rparr>;
          st = st\<lparr>master_value := drop_bit 1 (master_value st)\<rparr>
      in st)"

text \<open>Line 166: the asymmetric multiplication by one of the two wrap factors.\<close>

definition wrap_multiply :: "osc \<Rightarrow> osc" where
  "wrap_multiply st =
     st\<lparr>master_value := master_value st *
          (if master_polarity st then wrap_factor st else neg_wrap_factor st)\<rparr>"

text \<open>Lines 170 and 171: the rescaling after the multiplication.\<close>

definition wrap_rescale :: "osc \<Rightarrow> osc" where
  "wrap_rescale st =
     (let st = st\<lparr>master_value := push_bit 2 (master_value st)\<rparr>;
          st = st\<lparr>master_value := drop_bit 8 (master_value st)\<rparr>
      in st)"

text \<open>Lines 175 to 186: folding back.\<close>

definition fold_back :: "osc \<Rightarrow> osc" where
  "fold_back st =
     (let st = (if master_value st AND 0xFF00 \<noteq> 0
                then (let st = (if master_value st AND 0x0100 \<noteq> 0
                                then st\<lparr>master_polarity := \<not> master_polarity st\<rparr>
                                else st);
                          st = st\<lparr>master_value := master_value st AND 0x00FF\<rparr>
                      in st)
                else st);
          st = (if master_value st > 127
                then st\<lparr>master_value := 127 - (master_value st AND 0x007F)\<rparr>
                else st)
      in st)"

text \<open>Lines 189 and 190: the bipolar sample, stored in the \<^verbatim>\<open>uint8_t\<close> \<^verbatim>\<open>output\<close>.\<close>

definition make_bipolar :: "osc \<Rightarrow> osc" where
  "make_bipolar st =
     (if master_polarity st then st\<lparr>output_u8 := ucast (127 - master_value st)\<rparr>
      else st\<lparr>output_u8 := ucast (128 + master_value st)\<rparr>)"

text \<open>The whole of \<^verbatim>\<open>wsAudioLoop\<close>, the stages in the order of the source.\<close>

definition wsAudioLoop :: "osc \<Rightarrow> osc" where
  "wsAudioLoop st =
     (let st = write_and_advance st;
          st = smooth_offset st;
          st = master_sine st;
          st = slave_phase_calc st;
          st = slave_sine st;
          st = ring_mod st;
          st = wrap_multiply st;
          st = wrap_rescale st;
          st = fold_back st;
          st = make_bipolar st
      in st)"

section \<open>The stages in closed form, and the specification's formulas\<close>

text \<open>
  The six assignments of a pseudo-sine block read as one expression on the phase. Both
  \<open>master_sine\<close> and \<open>slave_sine\<close> are shown below to leave this value.
\<close>

definition parabola :: "u16 \<Rightarrow> u16" where
  "parabola P =
     (let x = drop_bit 8 (push_bit 1 P)
      in drop_bit 8 (push_bit 2 (x * (NOT x AND 255))))"

text \<open>
  The pseudo-sine magnitude in the words of the specification, on natural numbers:
  \<open>x = (P << 1) >> 8\<close>, \<open>value = x * ((~x) & 255)\<close>, \<open>value = (value << 2) >> 8\<close>,
  every operation in 16 unsigned bits, where \<open>~x\<close> is \<open>2 ^ 16 - 1 - x\<close>.
\<close>

definition pseudo_sine_spec :: "nat \<Rightarrow> nat" where
  "pseudo_sine_spec P =
     (let x = ((P * 2) mod 2 ^ 16) div 2 ^ 8;
          v = (x * ((2 ^ 16 - 1 - x) mod 2 ^ 8)) mod 2 ^ 16
      in ((v * 4) mod 2 ^ 16) div 2 ^ 8)"

text \<open>
  The slave phase in the words of the specification: the product at full precision,
  shifted down by 8 bits, the master phase added, the sum cut to 16 bits.
\<close>

definition slave_phase_spec :: "nat \<Rightarrow> nat \<Rightarrow> nat" where
  "slave_phase_spec M S = ((M * S) div 2 ^ 8 + M) mod 65536"

text \<open>
  The fold-back step in the words of the specification, on a value and a polarity:
  from 256 on, the polarity is inverted exactly when bit 8 is set and the value is
  taken modulo 256; then a value above 127 becomes \<open>127 - (value & 127)\<close>.
\<close>

definition fold_spec :: "nat \<Rightarrow> bool \<Rightarrow> nat \<times> bool" where
  "fold_spec v p =
     (let p1 = (if 256 \<le> v then (if bit v 8 then \<not> p else p) else p);
          v1 = (if 256 \<le> v then v mod 256 else v);
          v2 = (if 127 < v1 then 127 - (v1 AND 127) else v1)
      in (v2, p1))"

text \<open>
  The part of \<^verbatim>\<open>wsAudioLoop\<close> before the multiplication of line 166, and the part from
  the rescaling of line 170 on.
\<close>

definition upto_ring_mod :: "osc \<Rightarrow> osc" where
  "upto_ring_mod st =
     ring_mod (slave_sine (slave_phase_calc (master_sine (smooth_offset (write_and_advance st)))))"

definition from_rescale :: "osc \<Rightarrow> osc" where
  "from_rescale st = make_bipolar (fold_back (wrap_rescale st))"

text \<open>
  An example state: the initial state after one pass of \<^verbatim>\<open>loop\<close> in which the octave
  table gives the increment 8192, the pitch inputs read 0, the slave knob reads 1 and
  the fold knob reads 400, every input holding still during the pass.
\<close>

definition fold_example :: osc where
  "fold_example = loop (\<lambda>_. 8192) (\<lambda>_. 0) (\<lambda>_. 0) 1 (\<lambda>_. 400) init_osc"

section \<open>Words and natural numbers\<close>

lemma unat_u16_less: "unat (w::u16) < 65536"
  using unsigned_less [of w, where ?'a = nat] by simp

lemma unat_shl1_shr8:
  "unat (drop_bit 8 (push_bit 1 (P::u16))) = ((unat P * 2) mod 2 ^ 16) div 2 ^ 8"
  by (simp add: drop_bit_eq_div push_bit_eq_mult unat_div unat_word_ariths)

lemma unat_shl2_shr8:
  "unat (drop_bit 8 (push_bit 2 (v::u16))) = ((unat v * 4) mod 2 ^ 16) div 2 ^ 8"
  by (simp add: drop_bit_eq_div push_bit_eq_mult unat_div unat_word_ariths)

lemma m255: "(255::u16) = mask 8"
  by (simp add: mask_eq_exp_minus_1)

lemma m127: "(127::u16) = mask 7"
  by (simp add: mask_eq_exp_minus_1)

lemma m7fff: "(0x7FFF::u16) = mask 15"
  by (simp add: mask_eq_exp_minus_1)

lemma unat_and_255: "unat ((w::u16) AND 255) = unat w mod 2 ^ 8"
  unfolding m255
  by (simp add: take_bit_eq_mask [symmetric] unsigned_take_bit_eq take_bit_eq_mod unat_mod)

lemma unat_not: "unat (NOT (x::u16)) = 2 ^ 16 - 1 - unat x"
proof -
  have "NOT x = 65535 - x"
    by (simp add: not_eq_complement)
  moreover have "x \<le> 65535"
    using unat_u16_less [of x] by (simp add: word_le_nat_alt)
  ultimately show ?thesis
    by (simp add: unat_sub)
qed

section \<open>The pseudo-sine\<close>

lemma unat_parabola: "unat (parabola P) = pseudo_sine_spec (unat P)"
proof -
  define x where "x = drop_bit 8 (push_bit 1 P)"
  have x: "unat x = ((unat P * 2) mod 2 ^ 16) div 2 ^ 8"
    unfolding x_def by (rule unat_shl1_shr8)
  have n: "unat (NOT x AND 255) = (2 ^ 16 - 1 - unat x) mod 2 ^ 8"
    by (simp only: unat_and_255 unat_not)
  have v: "unat (x * (NOT x AND 255)) = (unat x * ((2 ^ 16 - 1 - unat x) mod 2 ^ 8)) mod 2 ^ 16"
    by (simp only: unat_word_ariths n) simp
  have "parabola P = drop_bit 8 (push_bit 2 (x * (NOT x AND 255)))"
    unfolding parabola_def x_def Let_def ..
  then have "unat (parabola P) = ((unat (x * (NOT x AND 255)) * 4) mod 2 ^ 16) div 2 ^ 8"
    by (simp only: unat_shl2_shr8)
  then show ?thesis
    unfolding pseudo_sine_spec_def Let_def v x .
qed

lemma parabola_arith: "(x::nat) \<le> 255 \<Longrightarrow> x * (255 - x) \<le> 16256"
proof -
  assume a: "x \<le> 255"
  have "0 \<le> (int x - 127) * (int x - 128)"
  proof (cases "x \<le> 127")
    case True
    then show ?thesis by (intro mult_nonpos_nonpos) auto
  next
    case False
    then show ?thesis by (intro mult_nonneg_nonneg) auto
  qed
  then have "int x * (255 - int x) \<le> 16256"
    by (simp add: algebra_simps)
  moreover have "int (x * (255 - x)) = int x * (255 - int x)"
    using a by (simp add: of_nat_diff)
  ultimately show ?thesis by linarith
qed

lemma compl_low_byte: "x \<le> 255 \<Longrightarrow> (2 ^ 16 - 1 - x) mod 2 ^ 8 = 255 - (x::nat)"
proof -
  assume xb: "x \<le> 255"
  have "(65535::nat) - x = (255 - x) + 255 * 256"
    using xb by linarith
  then have "(65535 - x) mod 256 = ((255 - x) + 255 * 256) mod 256"
    by (simp only: )
  also have "\<dots> = (255 - x) mod 256"
    by (rule mod_mult_self1)
  also have "\<dots> = 255 - x"
    by (rule mod_less) linarith
  finally show "(2 ^ 16 - 1 - x) mod 2 ^ 8 = 255 - x"
    by simp
qed

lemma scaled_le_254:
  "x * (255 - x) \<le> 16256 \<Longrightarrow>
     (((x * (255 - x)) mod 2 ^ 16) * 4 mod 2 ^ 16) div 2 ^ 8 \<le> (254::nat)"
  by simp

lemma pseudo_sine_spec_le: "pseudo_sine_spec P \<le> 254"
proof -
  define x where "x = ((P * 2) mod 2 ^ 16) div 2 ^ 8"
  have xb: "x \<le> 255"
    unfolding x_def by simp
  have c: "(2 ^ 16 - 1 - x) mod 2 ^ 8 = 255 - x"
    using xb by (rule compl_low_byte)
  have "pseudo_sine_spec P = (((x * (255 - x)) mod 2 ^ 16) * 4 mod 2 ^ 16) div 2 ^ 8"
    unfolding pseudo_sine_spec_def Let_def x_def [symmetric] c ..
  also have "\<dots> \<le> 254"
    using xb by (intro scaled_le_254 parabola_arith)
  finally show ?thesis .
qed

lemma parabola_le: "unat (parabola P) \<le> 254"
  by (simp only: unat_parabola pseudo_sine_spec_le)

lemma shl1_clear: "push_bit 1 ((P::u16) AND 0x7FFF) = push_bit 1 P"
proof -
  have "push_bit 1 (take_bit 15 P) = take_bit (1 + 15) (push_bit 1 P)"
    by (rule push_bit_take_bit)
  also have "(1::nat) + 15 = LENGTH(16)"
    by simp
  also have "take_bit LENGTH(16) (push_bit 1 P) = push_bit 1 P"
    by (rule take_bit_length_eq)
  finally show ?thesis
    unfolding m7fff take_bit_eq_mask .
qed

lemma parabola_clear: "parabola (P AND 0x7FFF) = parabola P"
  unfolding parabola_def shl1_clear ..

lemma top_bit: "((P::u16) AND 0x8000 \<noteq> 0) = bit P 15"
proof -
  have "(0x8000::u16) = 2 ^ 15"
    by simp
  then show ?thesis
    by (simp only: and_exp_eq_0_iff_not_bit not_not)
qed

lemma top_bit_clear: "\<not> bit ((P::u16) AND 0x7FFF) 15"
  unfolding m7fff by (simp add: bit_simps)

lemma master_sine_value: "master_value (master_sine st) = parabola (master_phase st)"
  by (simp add: master_sine_def parabola_def Let_def)

lemma master_sine_polarity: "master_polarity (master_sine st) = bit (master_phase st) 15"
  by (simp add: master_sine_def Let_def top_bit del: bit_numeral_word_iff)

lemma slave_sine_value: "slave_value (slave_sine st) = parabola (slave_phase st)"
  by (simp add: slave_sine_def parabola_def Let_def)

lemma slave_sine_polarity: "slave_polarity (slave_sine st) = bit (slave_phase st) 15"
  by (simp add: slave_sine_def Let_def top_bit del: bit_numeral_word_iff)

section \<open>The slave phase\<close>

lemma unat_ucast_up32: "unat (ucast (w::u16) :: u32) = unat w"
  using unat_u16_less [of w] by (simp add: unsigned_ucast_eq take_bit_eq_mod)

lemma m65535: "(65535::u32) = mask 16"
  by (simp add: mask_eq_exp_minus_1)

lemma slave_phase_closed:
  "slave_phase (slave_phase_calc st) =
     ucast ((drop_bit 8 (ucast (master_phase st) * ucast (slave_offset_current st)) + ucast (master_phase st)) AND (65535::u32))"
  by (simp add: slave_phase_calc_def Let_def)

lemma slave_phase_unat:
  "unat (slave_phase (slave_phase_calc st)) =
     slave_phase_spec (unat (master_phase st)) (unat (slave_offset_current st))"
proof -
  define M where "M = unat (master_phase st)"
  define S where "S = unat (slave_offset_current st)"
  define a :: u32 where "a = ucast (master_phase st) * ucast (slave_offset_current st)"
  have Mb: "M < 65536" and Sb: "S < 65536"
    unfolding M_def S_def by (rule unat_u16_less)+
  have "M * S \<le> 65535 * 65535"
    using Mb Sb by (intro mult_le_mono) simp_all
  then have MS: "M * S < 2 ^ 32" by simp
  have a: "unat a = M * S"
    unfolding a_def using MS by (simp add: unat_word_ariths unat_ucast_up32 M_def S_def)
  have d: "unat (drop_bit 8 a) = (M * S) div 2 ^ 8"
    by (simp only: unat_drop_bit_eq a) (simp only: drop_bit_eq_div)
  have "(M * S) div 2 ^ 8 + M < 2 ^ 32"
    using MS Mb by simp
  then have s: "unat (drop_bit 8 a + ucast (master_phase st)) = (M * S) div 2 ^ 8 + M"
    by (simp only: unat_word_ariths d unat_ucast_up32 M_def [symmetric]) simp
  have t: "take_bit 16 n = n mod 65536" for n :: nat
    by (simp add: take_bit_eq_mod)
  have "unat (take_bit 16 (drop_bit 8 a + ucast (master_phase st))) = take_bit 16 ((M * S) div 2 ^ 8 + M)"
    by (simp only: unsigned_take_bit_eq s)
  then have k: "unat ((drop_bit 8 a + ucast (master_phase st)) AND 65535) = ((M * S) div 2 ^ 8 + M) mod 65536"
    unfolding m65535 take_bit_eq_mask [symmetric] t .
  have "unat (ucast ((drop_bit 8 a + ucast (master_phase st)) AND (65535::u32)) :: u16)
      = take_bit 16 (((M * S) div 2 ^ 8 + M) mod 65536)"
    by (simp only: unsigned_ucast_eq k) simp
  then have "unat (ucast ((drop_bit 8 a + ucast (master_phase st)) AND (65535::u32)) :: u16)
      = ((M * S) div 2 ^ 8 + M) mod 65536"
    unfolding t by simp
  then show ?thesis
    unfolding slave_phase_closed slave_phase_spec_def a_def M_def S_def .
qed

section \<open>Folding back\<close>

lemma and_ff00: "(w::u16) AND 0xFF00 = push_bit 8 (drop_bit 8 w)"
proof -
  have "(0xFF00::u16) = NOT (mask 8)"
    by (simp add: mask_eq_exp_minus_1)
  moreover have "w AND NOT (mask 8) = push_bit 8 (drop_bit 8 w)"
    by (rule bit_word_eqI) (auto simp add: bit_simps)
  ultimately show ?thesis by (simp only: )
qed

lemma hi_byte: "((w::u16) AND 0xFF00 \<noteq> 0) = (256 \<le> unat w)"
proof -
  have "unat w div 256 < 256"
    using unat_u16_less [of w] by simp
  then have "unat (push_bit 8 (drop_bit 8 w)) = unat w div 256 * 256"
    by (simp add: drop_bit_eq_div push_bit_eq_mult unat_div unat_word_ariths)
  then have "unat (w AND 0xFF00) = unat w div 256 * 256"
    by (simp only: and_ff00)
  moreover have "(w AND 0xFF00 \<noteq> 0) = (unat (w AND 0xFF00) \<noteq> 0)"
    by (simp add: unat_eq_0)
  ultimately show ?thesis by (auto simp add: div_eq_0_iff)
qed

lemma bit8: "((w::u16) AND 0x0100 \<noteq> 0) = bit (unat w) 8"
proof -
  have "(0x0100::u16) = 2 ^ 8"
    by simp
  then have "(w AND 0x0100 \<noteq> 0) = bit w 8"
    by (simp only: and_exp_eq_0_iff_not_bit not_not)
  then show ?thesis by (simp add: bit_unsigned_iff)
qed

lemma gt127: "((w::u16) > 127) = (127 < unat w)"
  by (simp add: word_less_nat_alt)

lemma unat_and_127: "unat ((w::u16) AND 0x7F) = unat w AND 127"
  by (simp add: unsigned_and_eq)

lemma nat_and_127: "(n::nat) AND 127 = n mod 128"
proof -
  have m: "(127::nat) = mask 7"
    by (simp add: mask_eq_exp_minus_1)
  have "n AND mask 7 = n mod 2 ^ 7"
    by (simp only: take_bit_eq_mask [symmetric] take_bit_eq_mod)
  then show ?thesis
    unfolding m [symmetric] by simp
qed

lemma unat_reflect: "unat (127 - ((w::u16) AND 0x7F)) = 127 - (unat w AND 127)"
proof -
  have "unat (w AND 0x7F) \<le> 127"
    by (simp add: unat_and_127 nat_and_127)
  then have "w AND 0x7F \<le> 127" by (simp add: word_le_nat_alt)
  then have "unat (127 - (w AND 0x7F)) = unat (127::u16) - unat (w AND 0x7F)"
    by (rule unat_sub)
  then show ?thesis by (simp only: unat_and_127) simp
qed

lemma fold_back_value:
  "master_value (fold_back st) =
     (let v = master_value st;
          v1 = (if v AND 0xFF00 \<noteq> 0 then v AND 0x00FF else v)
      in if v1 > 127 then 127 - (v1 AND 0x007F) else v1)"
  by (simp add: fold_back_def Let_def)

lemma fold_back_polarity:
  "master_polarity (fold_back st) =
     (if master_value st AND 0xFF00 \<noteq> 0 \<and> master_value st AND 0x0100 \<noteq> 0
      then \<not> master_polarity st else master_polarity st)"
  by (simp add: fold_back_def Let_def)

lemma fold_back_spec:
  "(unat (master_value (fold_back st)), master_polarity (fold_back st)) =
     fold_spec (unat (master_value st)) (master_polarity st)"
  unfolding fold_back_value fold_back_polarity fold_spec_def Let_def hi_byte bit8 
  by (simp add: gt127 unat_reflect unat_and_255 del: bit_numeral_word_iff)

lemma fold_spec_le: "fst (fold_spec v p) \<le> 127"
  by (simp add: fold_spec_def Let_def)

lemma fold_spec_small: "v \<le> 127 \<Longrightarrow> fold_spec v p = (v, p)"
  by (simp add: fold_spec_def Let_def)

section \<open>Smoothing of the slave offset\<close>

lemma uint_u16_less: "uint (w::u16) < 65536"
  using uint_lt2p [of w] by simp

lemma smooth_current:
  "uint (slave_offset_current (smooth_offset st)) =
     (if uint (slave_offset_current st) < uint (slave_offset_measured st)
        then uint (slave_offset_current st) + 1
      else if uint (slave_offset_current st) > uint (slave_offset_measured st)
        then uint (slave_offset_current st) - 1
      else uint (slave_offset_current st))"
proof -
  define c where "c = slave_offset_current st"
  define t where "t = slave_offset_measured st"
  consider "c < t" | "c > t" | "c = t" by fastforce
  then show ?thesis
  proof cases
    case 1
    then have lt: "uint c < uint t" by (simp add: word_less_def)
    then have "uint c + 1 < 65536" using uint_u16_less [of t] by simp
    then have "uint (c + 1) = uint c + 1"
      by (simp add: uint_word_ariths) 
    with 1 lt show ?thesis
      by (simp add: smooth_offset_def c_def t_def)
  next
    case 2
    then have gt: "uint t < uint c" by (simp add: word_less_def)
    then have "1 \<le> uint c" using uint_ge_0 [of t] by linarith
    then have "1 \<le> c" by (simp add: word_le_def)
    then have "uint (c - 1) = uint c - 1"
      by (simp add: uint_minus_simple_alt)
    moreover have "\<not> c < t" using 2 by simp
    ultimately show ?thesis
      using 2 gt by (simp add: smooth_offset_def c_def t_def)
  next
    case 3
    then show ?thesis
      by (simp add: smooth_offset_def c_def t_def)
  qed
qed

lemma smooth_measured: "slave_offset_measured (smooth_offset st) = slave_offset_measured st"
  by (simp add: smooth_offset_def)

lemma stage_offsets:
  "slave_offset_current (write_and_advance st) = slave_offset_current st"
  "slave_offset_measured (write_and_advance st) = slave_offset_measured st"
  "slave_offset_current (master_sine st) = slave_offset_current st"
  "slave_offset_measured (master_sine st) = slave_offset_measured st"
  "slave_offset_current (slave_phase_calc st) = slave_offset_current st"
  "slave_offset_measured (slave_phase_calc st) = slave_offset_measured st"
  "slave_offset_current (slave_sine st) = slave_offset_current st"
  "slave_offset_measured (slave_sine st) = slave_offset_measured st"
  "slave_offset_current (ring_mod st) = slave_offset_current st"
  "slave_offset_measured (ring_mod st) = slave_offset_measured st"
  "slave_offset_current (wrap_multiply st) = slave_offset_current st"
  "slave_offset_measured (wrap_multiply st) = slave_offset_measured st"
  "slave_offset_current (wrap_rescale st) = slave_offset_current st"
  "slave_offset_measured (wrap_rescale st) = slave_offset_measured st"
  "slave_offset_current (fold_back st) = slave_offset_current st"
  "slave_offset_measured (fold_back st) = slave_offset_measured st"
  "slave_offset_current (make_bipolar st) = slave_offset_current st"
  "slave_offset_measured (make_bipolar st) = slave_offset_measured st"
  by (simp_all add: write_and_advance_def master_sine_def
      slave_phase_calc_def slave_sine_def ring_mod_def wrap_multiply_def wrap_rescale_def
      fold_back_def make_bipolar_def Let_def)

lemma loop_current:
  "uint (slave_offset_current (wsAudioLoop st)) =
     (if uint (slave_offset_current st) < uint (slave_offset_measured st)
        then uint (slave_offset_current st) + 1
      else if uint (slave_offset_current st) > uint (slave_offset_measured st)
        then uint (slave_offset_current st) - 1
      else uint (slave_offset_current st))"
  unfolding wsAudioLoop_def Let_def
  by (simp only: stage_offsets smooth_current)

lemma loop_measured:
  "slave_offset_measured (wsAudioLoop st) = slave_offset_measured st"
  unfolding wsAudioLoop_def Let_def
  by (simp only: stage_offsets smooth_measured)

lemma iter_measured:
  "slave_offset_measured ((wsAudioLoop ^^ n) st) = slave_offset_measured st"
  by (induction n) (simp_all add: loop_measured)

lemma iter_current:
  "uint (slave_offset_current ((wsAudioLoop ^^ n) st)) =
     (if uint (slave_offset_current st) \<le> uint (slave_offset_measured st)
      then min (uint (slave_offset_current st) + int n) (uint (slave_offset_measured st))
      else max (uint (slave_offset_current st) - int n) (uint (slave_offset_measured st)))"
proof (induction n)
  case 0
  then show ?case by simp
next
  case (Suc n)
  have "uint (slave_offset_current ((wsAudioLoop ^^ Suc n) st)) =
        uint (slave_offset_current (wsAudioLoop ((wsAudioLoop ^^ n) st)))"
    by simp
  then show ?case
    unfolding loop_current iter_measured Suc.IH
    by (simp only: ) (auto simp add: min_def max_def)
qed

section \<open>The control-rate sampler\<close>

lemma s16_id: "- 32768 \<le> x \<Longrightarrow> x < 32768 \<Longrightarrow> s16 x = x"
  unfolding s16_def by (rule signed_take_bit_int_eq_self) simp_all

lemma uint_small: "0 \<le> x \<Longrightarrow> x < 65536 \<Longrightarrow> uint (word_of_int x :: u16) = x"
  by (simp add: uint_word_of_int)

text \<open>
  With inputs that hold still during a pass, every reading of an input being the same
  value from 0 to 1023, the sampler computes the clamped values of the specification.
\<close>

lemma knob_excess_still:
  assumes "0 \<le> knob" and "knob \<le> 1023"
  shows "fst (knob_excess (\<lambda>_. knob) i) = max 0 (knob - 600)"
proof -
  have k: "s16 (knob - 600) = knob - 600"
    using assms by (intro s16_id) simp_all
  show ?thesis
    unfolding knob_excess_def k by (simp add: max_def)
qed

lemma pitch_sum_still:
  assumes "0 \<le> cv" and "cv \<le> 1023" and "0 \<le> knob" and "knob \<le> 1023"
  shows "fst (pitch_sum (\<lambda>_. cv) (\<lambda>_. knob) c i) = cv + max 0 (knob - 600)"
proof -
  have m: "fst (knob_excess (\<lambda>_. knob) i) = max 0 (knob - 600)"
    using assms(3,4) by (rule knob_excess_still)
  have s: "s16 (cv + max 0 (knob - 600)) = cv + max 0 (knob - 600)"
    using assms by (intro s16_id) simp_all
  have "fst (pitch_sum (\<lambda>_. cv) (\<lambda>_. knob) c i) =
      s16 (cv + fst (knob_excess (\<lambda>_. knob) i))"
    by (simp add: pitch_sum_def split_def Let_def)
  then show ?thesis
    by (simp only: m s)
qed

lemma pwmv_still:
  assumes "0 \<le> cv" and "cv \<le> 1023" and "0 \<le> knob" and "knob \<le> 1023"
  shows "uint (pwmv (\<lambda>_. cv) (\<lambda>_. knob)) = max 0 (min 1023 (cv + max 0 (knob - 600)))"
proof -
  define b where "b = cv + max 0 (knob - 600)"
  have p: "fst (pitch_sum (\<lambda>_. cv) (\<lambda>_. knob) c i) = b" for c i
    unfolding b_def using assms by (rule pitch_sum_still)
  have "pwmv (\<lambda>_. cv) (\<lambda>_. knob) = (if 1023 < b then word_of_int 1023 else word_of_int b)"
    by (simp add: pwmv_def split_def Let_def p)
  then have "pwmv (\<lambda>_. cv) (\<lambda>_. knob) = word_of_int (min 1023 b)"
    by (simp add: min_def)
  moreover have "0 \<le> min 1023 b"
    unfolding b_def using assms by simp
  moreover have "min 1023 b < 65536"
    by simp
  ultimately have "uint (pwmv (\<lambda>_. cv) (\<lambda>_. knob)) = min 1023 b"
    by (simp only: uint_small)
  moreover have "0 \<le> b"
    unfolding b_def using assms by simp
  ultimately show ?thesis
    unfolding b_def by simp
qed

lemma wrap_of_knob_still:
  assumes "0 \<le> knob" and "knob \<le> 1023"
  shows "uint (wrap_of_knob (\<lambda>_. knob)) = min (64 + knob div 2) 511"
proof -
  have d: "drop_bit 1 knob = knob div 2"
    by (simp add: drop_bit_eq_div)
  have a: "s16 (knob div 2) = knob div 2"
    using assms by (intro s16_id) simp_all
  have b: "s16 (64 + knob div 2) = 64 + knob div 2"
    using assms by (intro s16_id) simp_all
  have "wrap_of_knob (\<lambda>_. knob) =
      (if 64 + knob div 2 < 511 then word_of_int (64 + knob div 2) else word_of_int 511)"
    unfolding wrap_of_knob_def d a b ..
  then have "wrap_of_knob (\<lambda>_. knob) = word_of_int (min (64 + knob div 2) 511)"
    by (simp add: min_def)
  moreover have "0 \<le> min (64 + knob div 2) 511"
    using assms by simp
  moreover have "min (64 + knob div 2) 511 < 65536"
    by simp
  ultimately show ?thesis
    by (simp only: uint_small)
qed

lemma neg_wrap_of_value: "uint (neg_wrap_of w) = max (uint w div 2) 64"
proof -
  define h where "h = drop_bit 1 w"
  have d: "uint h = uint w div 2"
    unfolding h_def by (simp add: uint_div drop_bit_eq_div)
  have "neg_wrap_of w = (if h > 64 then h else 64)"
    unfolding neg_wrap_of_def max_macro_def h_def ..
  then have "uint (neg_wrap_of w) = (if uint h > 64 then uint h else 64)"
    by (simp add: word_less_def)
  then show ?thesis
    unfolding d by (simp add: max_def)
qed

lemma loop_fields:
  "phase_inc (loop f cv pk sk wk st) = f (pwmv cv pk)"
  "slave_offset_measured (loop f cv pk sk wk st) = word_of_int sk"
  "wrap_factor (loop f cv pk sk wk st) = wrap_of_knob wk"
  "neg_wrap_factor (loop f cv pk sk wk st) = neg_wrap_of (wrap_of_knob wk)"
  by (simp_all add: loop_def Let_def)

lemma sampler_still:
  assumes "0 \<le> cv" and "cv \<le> 1023" and "0 \<le> pk" and "pk \<le> 1023"
    and "0 \<le> knob" and "knob \<le> 1023"
  shows "uint (pwmv (\<lambda>_. cv) (\<lambda>_. pk)) = max 0 (min 1023 (cv + max 0 (pk - 600)))"
    and "phase_inc (loop f (\<lambda>_. cv) (\<lambda>_. pk) sk (\<lambda>_. knob) st) = f (pwmv (\<lambda>_. cv) (\<lambda>_. pk))"
    and "uint (wrap_factor (loop f (\<lambda>_. cv) (\<lambda>_. pk) sk (\<lambda>_. knob) st)) =
           min (64 + knob div 2) 511"
    and "uint (neg_wrap_factor (loop f (\<lambda>_. cv) (\<lambda>_. pk) sk (\<lambda>_. knob) st)) =
           max (min (64 + knob div 2) 511 div 2) 64"
proof -
  show "uint (pwmv (\<lambda>_. cv) (\<lambda>_. pk)) = max 0 (min 1023 (cv + max 0 (pk - 600)))"
    using assms(1-4) by (rule pwmv_still)
  show "phase_inc (loop f (\<lambda>_. cv) (\<lambda>_. pk) sk (\<lambda>_. knob) st) = f (pwmv (\<lambda>_. cv) (\<lambda>_. pk))"
    by (rule loop_fields)
  show w: "uint (wrap_factor (loop f (\<lambda>_. cv) (\<lambda>_. pk) sk (\<lambda>_. knob) st)) =
      min (64 + knob div 2) 511"
    unfolding loop_fields using assms(5,6) by (rule wrap_of_knob_still)
  show "uint (neg_wrap_factor (loop f (\<lambda>_. cv) (\<lambda>_. pk) sk (\<lambda>_. knob) st)) =
      max (min (64 + knob div 2) 511 div 2) 64"
    using w unfolding loop_fields by (simp only: neg_wrap_of_value)
qed

section \<open>The example state\<close>

lemmas stage_defs = write_and_advance_def smooth_offset_def master_sine_def
      slave_phase_calc_def slave_sine_def ring_mod_def wrap_multiply_def wrap_rescale_def
      fold_back_def make_bipolar_def

lemma ex_state: "fold_example = \<lparr> master_polarity = False, slave_polarity = False, output_u8 = 0,
     master_phase = 0, phase_inc = 8192, slave_offset_current = 1,
     slave_offset_measured = 1, wrap_factor = 264, neg_wrap_factor = 132,
     slave_phase = 0, master_value = 0, slave_value = 0, accumulator = 0, pwm = 0 \<rparr>"
  by (simp add: fold_example_def loop_def init_osc_def Let_def wrap_of_knob_def neg_wrap_of_def
      s16_def max_macro_def)

lemma ex_pre: "upto_ring_mod fold_example = \<lparr> master_polarity = False, slave_polarity = False, output_u8 = 0,
     master_phase = 8192, phase_inc = 8192, slave_offset_current = 1,
     slave_offset_measured = 1, wrap_factor = 264, neg_wrap_factor = 132,
     slave_phase = 8224, master_value = 71, slave_value = 191, accumulator = 8224, pwm = 0 \<rparr>"
  by (simp add: ex_state upto_ring_mod_def stage_defs Let_def)

lemma ex_mult: "master_value (wrap_multiply (upto_ring_mod fold_example)) = 9372"
  by (simp add: ex_pre wrap_multiply_def)

lemma ex_out: "output_u8 (from_rescale (wrap_multiply (upto_ring_mod fold_example))) = 237"
  by (simp add: ex_pre wrap_multiply_def from_rescale_def wrap_rescale_def fold_back_def make_bipolar_def Let_def)

lemma loop_split: "wsAudioLoop st = from_rescale (wrap_multiply (upto_ring_mod st))"
  by (simp only: wsAudioLoop_def upto_ring_mod_def from_rescale_def Let_def)

section \<open>Fields that the stages leave alone\<close>

lemma later_stages_keep:
  "master_phase (slave_phase_calc st) = master_phase st"
  "slave_offset_current (slave_phase_calc st) = slave_offset_current st"
  "master_phase (slave_sine st) = master_phase st"
  "slave_phase (slave_sine st) = slave_phase st"
  "master_value (slave_phase_calc st) = master_value st"
  "master_value (slave_sine st) = master_value st"
  "master_phase (ring_mod st) = master_phase st"
  "slave_phase (ring_mod st) = slave_phase st"
  "master_phase (wrap_multiply st) = master_phase st"
  "slave_phase (wrap_multiply st) = slave_phase st"
  "master_phase (wrap_rescale st) = master_phase st"
  "slave_phase (wrap_rescale st) = slave_phase st"
  "master_phase (fold_back st) = master_phase st"
  "slave_phase (fold_back st) = slave_phase st"
  "master_phase (make_bipolar st) = master_phase st"
  "slave_phase (make_bipolar st) = slave_phase st"
  "master_value (make_bipolar st) = master_value st"
  "master_polarity (make_bipolar st) = master_polarity st"
  by (simp_all add: stage_defs Let_def)

section \<open>The ring modulator and the output stage\<close>

lemma ring_mod_value:
  "master_value (ring_mod st) = drop_bit 1 (drop_bit 8 (master_value st * slave_value st))"
  by (simp add: ring_mod_def Let_def)

lemma product_le: "(a::nat) \<le> 254 \<Longrightarrow> b \<le> 254 \<Longrightarrow> a * b \<le> 64516"
  using mult_le_mono [of a 254 b 254] by simp

lemma ring_mod_bounds:
  assumes "unat (a::u16) \<le> 254" and "unat (b::u16) \<le> 254"
  shows "unat a * unat b \<le> 64516"
    and "unat (a * b) = unat a * unat b"
    and "unat (drop_bit 1 (drop_bit 8 (a * b))) \<le> 126"
proof -
  show p: "unat a * unat b \<le> 64516"
    using assms by (rule product_le)
  then show m: "unat (a * b) = unat a * unat b"
    by (simp add: unat_word_ariths)
  have "unat (drop_bit 1 (drop_bit 8 (a * b))) = (unat a * unat b) div 256 div 2"
    by (simp only: unat_drop_bit_eq m) (simp add: drop_bit_eq_div)
  then show "unat (drop_bit 1 (drop_bit 8 (a * b))) \<le> 126"
    using p by simp
qed

lemma before_ring_mod:
  "master_value (slave_sine (slave_phase_calc (master_sine st))) = parabola (master_phase st)"
  "slave_value (slave_sine (slave_phase_calc (master_sine st))) =
     parabola (slave_phase (slave_phase_calc (master_sine st)))"
  by (simp_all only: later_stages_keep master_sine_value slave_sine_value)

lemma fold_back_le: "unat (master_value (fold_back st)) \<le> 127"
proof -
  have "unat (master_value (fold_back st)) =
      fst (fold_spec (unat (master_value st)) (master_polarity st))"
    by (simp only: fold_back_spec [symmetric] fst_conv)
  then show ?thesis
    by (simp only: fold_spec_le)
qed

lemma make_bipolar_output:
  assumes "unat (master_value st) \<le> 127"
  shows "unat (output_u8 (make_bipolar st)) =
           (if master_polarity st then 127 - unat (master_value st)
            else 128 + unat (master_value st))"
proof -
  define v where "v = master_value st"
  have vb: "unat v \<le> 127"
    using assms by (simp only: v_def)
  then have le: "v \<le> 127"
    by (simp add: word_le_nat_alt)
  have "unat (127 - v) = 127 - unat v"
    using le by (simp add: unat_sub)
  then have a: "unat (ucast (127 - v) :: u8) = 127 - unat v"
    using vb by (simp add: unsigned_ucast_eq take_bit_eq_mod)
  have "unat (128 + v) = 128 + unat v"
    using vb by (simp add: unat_word_ariths)
  then have b: "unat (ucast (128 + v) :: u8) = 128 + unat v"
    using vb by (simp add: unsigned_ucast_eq take_bit_eq_mod)
  show ?thesis
    using a b by (simp add: make_bipolar_def v_def)
qed

lemma stage_factors:
  "wrap_factor (write_and_advance st) = wrap_factor st"
  "neg_wrap_factor (write_and_advance st) = neg_wrap_factor st"
  "wrap_factor (smooth_offset st) = wrap_factor st"
  "neg_wrap_factor (smooth_offset st) = neg_wrap_factor st"
  "wrap_factor (master_sine st) = wrap_factor st"
  "neg_wrap_factor (master_sine st) = neg_wrap_factor st"
  "wrap_factor (slave_phase_calc st) = wrap_factor st"
  "neg_wrap_factor (slave_phase_calc st) = neg_wrap_factor st"
  "wrap_factor (slave_sine st) = wrap_factor st"
  "neg_wrap_factor (slave_sine st) = neg_wrap_factor st"
  "wrap_factor (ring_mod st) = wrap_factor st"
  "neg_wrap_factor (ring_mod st) = neg_wrap_factor st"
  by (simp_all add: stage_defs Let_def)

lemma upto_ring_mod_factors:
  "wrap_factor (upto_ring_mod st) = wrap_factor st"
  "neg_wrap_factor (upto_ring_mod st) = neg_wrap_factor st"
  unfolding upto_ring_mod_def by (simp_all only: stage_factors)

section \<open>The claims\<close>

text \<open>
  Claim C1. For every 16-bit phase \<open>P\<close>, the pseudo-sine block leaves the magnitude
  \<open>((x * ((~x) & 255)) << 2) >> 8\<close> with \<open>x = ((P << 1) mod 2 ^ 16) >> 8\<close>, all in 16
  unsigned bits, and the polarity is bit 15 of \<open>P\<close>. The master block does this to the
  master phase and the slave block does the same to the slave phase.
\<close>

theorem pseudo_sine_stage:
  "unat (master_value (master_sine st)) = pseudo_sine_spec (unat (master_phase st)) \<and>
   master_polarity (master_sine st) = bit (master_phase st) 15 \<and>
   unat (slave_value (slave_sine st)) = pseudo_sine_spec (unat (slave_phase st)) \<and>
   slave_polarity (slave_sine st) = bit (slave_phase st) 15"
  by (simp only: master_sine_value master_sine_polarity slave_sine_value slave_sine_polarity
      unat_parabola)

text \<open>
  Claim C2. The slave phase of a sample is \<open>(((M * S) >> 8) + M) mod 65536\<close>, the product
  \<open>M * S\<close> at full precision, for the master phase \<open>M\<close> and the slave offset \<open>S\<close> of that
  sample. The shift binds tighter than the sum here, as in lines 141 and 142. The
  equation holds for every 16-bit \<open>S\<close>, so also for \<open>S\<close> from 0 to 1023. After a whole pass
  of the audio loop the slave phase is this function of the master phase and the slave
  offset that the pass leaves: the slave phase of the state before the pass plays no part.
\<close>

theorem slave_phase_pure:
  "unat (slave_phase (slave_phase_calc st)) =
     slave_phase_spec (unat (master_phase st)) (unat (slave_offset_current st)) \<and>
   unat (slave_phase (wsAudioLoop st)) =
     slave_phase_spec (unat (master_phase (wsAudioLoop st)))
       (unat (slave_offset_current (wsAudioLoop st)))"
proof -
  define s where "s = master_sine (smooth_offset (write_and_advance st))"
  have w: "wsAudioLoop st =
      make_bipolar (fold_back (wrap_rescale (wrap_multiply (ring_mod (slave_sine (slave_phase_calc s))))))"
    unfolding wsAudioLoop_def Let_def s_def ..
  have "slave_phase (wsAudioLoop st) = slave_phase (slave_phase_calc s)"
    and "master_phase (wsAudioLoop st) = master_phase s"
    and "slave_offset_current (wsAudioLoop st) = slave_offset_current s"
    unfolding w by (simp_all only: later_stages_keep stage_offsets)
  then show ?thesis
    by (simp only: slave_phase_unat)
qed

text \<open>
  Claim C3, as it is worded, at the example state. The polarity flag is clear when line 166
  runs, and a clear flag is the polarity that lines 189 and 190 turn into
  \<open>128 + value\<close>, the polarity that C3 calls positive. The magnitude is multiplied by
  \<^verbatim>\<open>neg_wrap_factor\<close> (132), not by \<^verbatim>\<open>wrap_factor\<close> (264), and the two products differ.
\<close>

theorem asymmetric_fold_counterexample:
  "\<not> master_polarity (upto_ring_mod fold_example) \<and>
   output_u8 (make_bipolar (upto_ring_mod fold_example)) =
     ucast (128 + master_value (upto_ring_mod fold_example)) \<and>
   master_value (wrap_multiply (upto_ring_mod fold_example)) =
     master_value (upto_ring_mod fold_example) * neg_wrap_factor (upto_ring_mod fold_example) \<and>
   master_value (wrap_multiply (upto_ring_mod fold_example)) \<noteq>
     master_value (upto_ring_mod fold_example) * wrap_factor (upto_ring_mod fold_example) \<and>
   output_u8 (wsAudioLoop fold_example) = 237"
  unfolding loop_split ex_out ex_mult
  by (simp add: ex_pre make_bipolar_def)

text \<open>
  Claim C3, amended. In the asymmetric wave-folding stage the ring-modulated magnitude
  is multiplied by \<^verbatim>\<open>wrap_factor\<close> when the polarity flag is set and by
  \<^verbatim>\<open>neg_wrap_factor\<close> when it is clear, where a set flag is the polarity that the output
  stage turns into \<open>127 - value\<close> and a clear flag the one it turns into \<open>128 + value\<close>.
  The first equation is the whole pass from any state, hence from every reachable one;
  the factors are those that the sampler left in the state.
\<close>

theorem asymmetric_fold:
  "wsAudioLoop st =
     make_bipolar (fold_back (wrap_rescale ((upto_ring_mod st)
       \<lparr>master_value := master_value (upto_ring_mod st) *
          (if master_polarity (upto_ring_mod st) then wrap_factor st else neg_wrap_factor st)\<rparr>))) \<and>
   output_u8 (make_bipolar s) =
     (if master_polarity s then ucast (127 - master_value s) else ucast (128 + master_value s))"
proof
  have "wrap_multiply (upto_ring_mod st) = (upto_ring_mod st)
       \<lparr>master_value := master_value (upto_ring_mod st) *
          (if master_polarity (upto_ring_mod st) then wrap_factor st else neg_wrap_factor st)\<rparr>"
    unfolding wrap_multiply_def by (simp only: upto_ring_mod_factors)
  then show "wsAudioLoop st =
     make_bipolar (fold_back (wrap_rescale ((upto_ring_mod st)
       \<lparr>master_value := master_value (upto_ring_mod st) *
          (if master_polarity (upto_ring_mod st) then wrap_factor st else neg_wrap_factor st)\<rparr>)))"
    unfolding loop_split from_rescale_def by (simp only: )
next
  show "output_u8 (make_bipolar s) =
     (if master_polarity s then ucast (127 - master_value s) else ucast (128 + master_value s))"
    by (simp add: make_bipolar_def)
qed

text \<open>
  Claim C4. For every 16-bit value \<open>v\<close> and polarity \<open>p\<close> that enter the fold-back step:
  from 256 on the polarity is inverted exactly when bit 8 of \<open>v\<close> is set and \<open>v\<close> becomes
  \<open>v mod 256\<close>; then a value above 127 becomes \<open>127 - (value & 127)\<close>. A value from 0 to
  127 passes unchanged, and its polarity with it.
\<close>

theorem fold_back_step:
  "(unat (master_value (fold_back st)), master_polarity (fold_back st)) =
     fold_spec (unat (master_value st)) (master_polarity st) \<and>
   (unat (master_value st) \<le> 127 \<longrightarrow>
      master_value (fold_back st) = master_value st \<and>
      master_polarity (fold_back st) = master_polarity st)"
proof (intro conjI impI)
  show "(unat (master_value (fold_back st)), master_polarity (fold_back st)) =
     fold_spec (unat (master_value st)) (master_polarity st)"
    by (rule fold_back_spec)
next
  assume "unat (master_value st) \<le> 127"
  then have "fold_spec (unat (master_value st)) (master_polarity st) =
      (unat (master_value st), master_polarity st)"
    by (rule fold_spec_small)
  then have "(unat (master_value (fold_back st)), master_polarity (fold_back st)) =
      (unat (master_value st), master_polarity st)"
    by (simp only: fold_back_spec)
  then show "master_value (fold_back st) = master_value st"
    and "master_polarity (fold_back st) = master_polarity st"
    by (simp_all add: word_unat_eq_iff)
qed

text \<open>The fold-back step at the value 100 with the polarity flag set.\<close>

theorem fold_back_step_witness:
  "unat (master_value (init_osc\<lparr>master_value := 100, master_polarity := True\<rparr>)) \<le> 127 \<and>
   master_value (fold_back (init_osc\<lparr>master_value := 100, master_polarity := True\<rparr>)) = 100 \<and>
   master_polarity (fold_back (init_osc\<lparr>master_value := 100, master_polarity := True\<rparr>))"
  using fold_back_step [of "init_osc\<lparr>master_value := 100, master_polarity := True\<rparr>"]
  by (simp add: init_osc_def)

text \<open>
  Claim C5. One pass of the audio loop moves the current slave offset \<open>c\<close> by exactly 1
  towards the target \<open>t\<close> and leaves it alone when \<open>c = t\<close>; the pass does not change the
  target. After \<open>n\<close> passes the offset has moved \<open>n\<close> steps towards \<open>t\<close> and stops there, so it
  never overshoots, and it equals \<open>t\<close> exactly when \<open>n\<close> is at least \<open>|c - t|\<close>.
\<close>

theorem smoothing_converges:
  "uint (slave_offset_current (wsAudioLoop st)) =
     (if uint (slave_offset_current st) < uint (slave_offset_measured st)
        then uint (slave_offset_current st) + 1
      else if uint (slave_offset_current st) > uint (slave_offset_measured st)
        then uint (slave_offset_current st) - 1
      else uint (slave_offset_current st)) \<and>
   uint (slave_offset_current ((wsAudioLoop ^^ n) st)) =
     (if uint (slave_offset_current st) \<le> uint (slave_offset_measured st)
      then min (uint (slave_offset_current st) + int n) (uint (slave_offset_measured st))
      else max (uint (slave_offset_current st) - int n) (uint (slave_offset_measured st))) \<and>
   slave_offset_measured ((wsAudioLoop ^^ n) st) = slave_offset_measured st \<and>
   (slave_offset_current ((wsAudioLoop ^^ n) st) = slave_offset_measured st) =
     (\<bar>uint (slave_offset_current st) - uint (slave_offset_measured st)\<bar> \<le> int n)"
proof -
  have "(slave_offset_current ((wsAudioLoop ^^ n) st) = slave_offset_measured st) =
        (uint (slave_offset_current ((wsAudioLoop ^^ n) st)) = uint (slave_offset_measured st))"
    by (simp add: word_uint_eq_iff)
  also have "\<dots> = (\<bar>uint (slave_offset_current st) - uint (slave_offset_measured st)\<bar> \<le> int n)"
    unfolding iter_current by (auto simp add: min_def max_def)
  finally show ?thesis
    by (simp only: loop_current iter_current iter_measured)
qed

text \<open>
  Claim C6 says that for a fold-knob reading from 0 to 1023 the sampler leaves
  \<^verbatim>\<open>wrap_factor = min (64 + knob / 2) 511\<close> in 64 to 511 and
  \<^verbatim>\<open>neg_wrap_factor = max (wrap_factor / 2) 64\<close> in 64 to 255. Line 105 compares one
  reading of the knob with 511 and stores the next one. When the knob reads 893 and then
  896 in one pass, the sampler stores 512 and 256; when it reads 0 and then 1023, it
  stores 575 and 287. Both factors are then above the bounds of the claim.
\<close>

theorem wrap_factor_unclamped:
  "wrap_factor (loop (\<lambda>_. 1) (\<lambda>_. 0) (\<lambda>_. 0) 1
      (\<lambda>i. if i = 0 then 893 else 896) init_osc) = 512 \<and>
   neg_wrap_factor (loop (\<lambda>_. 1) (\<lambda>_. 0) (\<lambda>_. 0) 1
      (\<lambda>i. if i = 0 then 893 else 896) init_osc) = 256 \<and>
   wrap_factor (loop (\<lambda>_. 1) (\<lambda>_. 0) (\<lambda>_. 0) 1
      (\<lambda>i. if i = 0 then 0 else 1023) init_osc) = 575 \<and>
   neg_wrap_factor (loop (\<lambda>_. 1) (\<lambda>_. 0) (\<lambda>_. 0) 1
      (\<lambda>i. if i = 0 then 0 else 1023) init_osc) = 287"
  by (simp add: loop_fields wrap_of_knob_def neg_wrap_of_def s16_def max_macro_def)

text \<open>
  Claim C7 says that for a CV reading and a knob reading from 0 to 1023 the effective
  pitch reading is \<open>clamp (CV + max 0 (knob - 600)) 0 1023\<close>. Line 94 compares one
  reading of each input and stores a later one. When the CV reads 0 and the knob reads
  600, 599, 600, 599 in one pass, the sum stored is -1, which is 65535 in the
  \<^verbatim>\<open>uint16_t\<close>, and the sampler hands 65535 to the octave table. When the CV reads 1023
  and the knob reads 600, 600, 600, 601, the value stored is 1024. Neither lies in 0 to
  1023.
\<close>

theorem pitch_reading_unclamped:
  "pwmv (\<lambda>_. 0) (\<lambda>i. if odd i then 599 else 600) = 65535 \<and>
   phase_inc (loop (\<lambda>w. w) (\<lambda>_. 0) (\<lambda>i. if odd i then 599 else 600) 1 (\<lambda>_. 0) init_osc) =
     65535 \<and>
   pwmv (\<lambda>_. 1023) (\<lambda>i. if i = 3 then 601 else 600) = 1024"
  by (simp add: loop_fields pwmv_def pitch_sum_def knob_excess_def s16_def Let_def)

text \<open>
  Claim C8. For every 16-bit phase \<open>P\<close>, the pseudo-sine magnitude of \<open>P\<close> is the magnitude
  of \<open>P\<close> with bit 15 cleared. The polarity of the cleared phase is clear and that of
  \<open>P\<close> is its bit 15, so the two results differ in the polarity alone. This is so for
  the master block and for the slave block.
\<close>

theorem pseudo_sine_symmetric:
  "master_value (master_sine (st\<lparr>master_phase := master_phase st AND 0x7FFF\<rparr>)) =
     master_value (master_sine st) \<and>
   \<not> master_polarity (master_sine (st\<lparr>master_phase := master_phase st AND 0x7FFF\<rparr>)) \<and>
   master_polarity (master_sine st) = bit (master_phase st) 15 \<and>
   slave_value (slave_sine (st\<lparr>slave_phase := slave_phase st AND 0x7FFF\<rparr>)) =
     slave_value (slave_sine st) \<and>
   \<not> slave_polarity (slave_sine (st\<lparr>slave_phase := slave_phase st AND 0x7FFF\<rparr>)) \<and>
   slave_polarity (slave_sine st) = bit (slave_phase st) 15"
  unfolding master_sine_value master_sine_polarity slave_sine_value slave_sine_polarity
  by (simp add: parabola_clear top_bit_clear del: bit_numeral_word_iff)

text \<open>
  Claim C9. For every 16-bit phase the pseudo-sine magnitude is at most 254. So, where
  the ring modulator starts, the product of the two magnitudes is at most 64516, the
  16-bit multiplication of line 158 does not wrap, and the halved magnitude that leaves
  the ring modulator for the fold stage is at most 126.
\<close>

theorem magnitudes_bounded:
  "unat (master_value (master_sine st)) \<le> 254 \<and>
   unat (slave_value (slave_sine st)) \<le> 254 \<and>
   unat (master_value (slave_sine (slave_phase_calc (master_sine st)))) *
     unat (slave_value (slave_sine (slave_phase_calc (master_sine st)))) \<le> 64516 \<and>
   unat (master_value (slave_sine (slave_phase_calc (master_sine st))) *
         slave_value (slave_sine (slave_phase_calc (master_sine st)))) =
     unat (master_value (slave_sine (slave_phase_calc (master_sine st)))) *
     unat (slave_value (slave_sine (slave_phase_calc (master_sine st)))) \<and>
   unat (master_value (ring_mod (slave_sine (slave_phase_calc (master_sine st))))) \<le> 126 \<and>
   unat (master_value (upto_ring_mod st)) \<le> 126"
  unfolding upto_ring_mod_def ring_mod_value before_ring_mod master_sine_value slave_sine_value
  by (intro conjI parabola_le ring_mod_bounds)

text \<open>
  Claim C10. In every pass of the audio loop the value that the fold-back step leaves is
  at most 127, so \<open>128 + value\<close> and \<open>127 - value\<close> fit the \<^verbatim>\<open>uint8_t\<close> output without
  wrapping. The output lies in 128 to 255 exactly when the final polarity flag is clear
  and in 0 to 127 exactly when it is set.
\<close>

theorem output_range:
  "unat (master_value (fold_back st)) \<le> 127 \<and>
   master_value (wsAudioLoop st) =
     master_value (fold_back (wrap_rescale (wrap_multiply (upto_ring_mod st)))) \<and>
   unat (master_value (wsAudioLoop st)) \<le> 127 \<and>
   unat (output_u8 (wsAudioLoop st)) =
     (if master_polarity (wsAudioLoop st) then 127 - unat (master_value (wsAudioLoop st))
      else 128 + unat (master_value (wsAudioLoop st))) \<and>
   (128 \<le> unat (output_u8 (wsAudioLoop st)) \<and> unat (output_u8 (wsAudioLoop st)) \<le> 255) =
     (\<not> master_polarity (wsAudioLoop st)) \<and>
   (unat (output_u8 (wsAudioLoop st)) \<le> 127) = master_polarity (wsAudioLoop st)"
proof -
  define s where "s = fold_back (wrap_rescale (wrap_multiply (upto_ring_mod st)))"
  define v where "v = unat (master_value s)"
  define p where "p = master_polarity s"
  define out where "out = unat (output_u8 (make_bipolar s))"
  have w: "wsAudioLoop st = make_bipolar s"
    unfolding loop_split from_rescale_def s_def ..
  have sb: "unat (master_value s) \<le> 127"
    unfolding s_def by (rule fold_back_le)
  have o: "out = (if p then 127 - v else 128 + v)"
    unfolding out_def p_def v_def using sb by (rule make_bipolar_output)
  have vb: "v \<le> 127"
    using sb by (simp only: v_def)
  have r: "v \<le> 127 \<and> out = (if p then 127 - v else 128 + v) \<and>
      (128 \<le> out \<and> out \<le> 255) = (\<not> p) \<and> (out \<le> 127) = p"
    using vb o by (cases p) simp_all
  have f: "unat (master_value (fold_back st)) \<le> 127"
    by (rule fold_back_le)
  have e1: "master_value (wsAudioLoop st) = master_value s"
    unfolding w by (simp only: later_stages_keep)
  have e2: "master_polarity (wsAudioLoop st) = p"
    unfolding w p_def by (simp only: later_stages_keep)
  have e3: "unat (output_u8 (wsAudioLoop st)) = out"
    unfolding w out_def ..
  show ?thesis
    unfolding s_def [symmetric] e1 e2 e3 v_def [symmetric]
    using f r by blast
qed

end
